theory Spec2Isabelle
  imports Complex_Main "HOL-Library.Sublist"
begin

section \<open>Errors\<close>

text \<open>
  The exceptions the code raises itself or through a built-in operation, as values. The
  library calls the code makes (file system, network, notebook and image readers) may
  raise exceptions of their own; those are values of the same type and pass through the
  code uncaught.
\<close>

datatype error = ValueError string | IndexError string | OSError string

definition and_then :: "error + 'a \<Rightarrow> ('a \<Rightarrow> error + 'b) \<Rightarrow> error + 'b" where
  "and_then r f = (case r of Inl e \<Rightarrow> Inl e | Inr x \<Rightarrow> f x)"

section \<open>Python string primitives\<close>

text \<open>
  Python strings are modelled as HOL strings (character lists). The membership test
  \<^verbatim>\<open>sub in s\<close> is \<^term>\<open>sublist sub s\<close> (a contiguous occurrence), and
  \<^verbatim>\<open>s.startswith(sub)\<close> is \<^term>\<open>prefix sub s\<close>.
\<close>

text \<open>\<^verbatim>\<open>s.find(sub)\<close>: the lowest index at which \<open>sub\<close> occurs in \<open>s\<close>, or \<open>-1\<close>.\<close>

fun str_find :: "string \<Rightarrow> string \<Rightarrow> int" where
  "str_find [] sub = (if sub = [] then 0 else - 1)"
| "str_find (c # cs) sub =
     (if prefix sub (c # cs) then 0
      else (let r = str_find cs sub in if r = - 1 then - 1 else r + 1))"

text \<open>
  \<^verbatim>\<open>s.split(sep)\<close> with an explicit separator: the pieces between the occurrences of
  \<open>sep\<close>, found from the left without overlap; an empty separator is a \<^verbatim>\<open>ValueError\<close>.
  \<open>split_from\<close> carries the piece read so far.
\<close>

function split_from :: "string \<Rightarrow> string \<Rightarrow> string \<Rightarrow> string list" where
  "split_from sep cur s =
     (if s = [] then [cur]
      else if sep \<noteq> [] \<and> prefix sep s then cur # split_from sep [] (drop (length sep) s)
      else split_from sep (cur @ [hd s]) (tl s))"
  by pat_completeness auto
termination
  by (relation "measure (\<lambda>(sep, cur, s). length s)") auto

declare split_from.simps [simp del]

definition str_split :: "string \<Rightarrow> string \<Rightarrow> error + string list" where
  "str_split s sep =
     (if sep = [] then Inl (ValueError ''empty separator'') else Inr (split_from sep [] s))"

text \<open>
  \<^verbatim>\<open>s.replace(old, new)\<close>: every occurrence of \<open>old\<close>, found from the left without
  overlap, is replaced; an empty \<open>old\<close> matches before every character and at the end.
\<close>

function str_replace :: "string \<Rightarrow> string \<Rightarrow> string \<Rightarrow> string" where
  "str_replace s old new =
     (if old = [] then new @ concat (map (\<lambda>c. c # new) s)
      else if s = [] then []
      else if prefix old s then new @ str_replace (drop (length old) s) old new
      else hd s # str_replace (tl s) old new)"
  by pat_completeness auto
termination
  by (relation "measure (\<lambda>(s, old, new). length s)") auto

declare str_replace.simps [simp del]

text \<open>\<^verbatim>\<open>s.rstrip('/')\<close>.\<close>

definition rstrip_slash :: "string \<Rightarrow> string" where
  "rstrip_slash s = rev (dropWhile (\<lambda>c. c = CHR ''/'') (rev s))"

text \<open>\<^verbatim>\<open>xs.index(x)\<close>: the first position of \<open>x\<close>, a \<^verbatim>\<open>ValueError\<close> when there is none.\<close>

fun list_index :: "string list \<Rightarrow> string \<Rightarrow> error + nat" where
  "list_index [] x = Inl (ValueError (CHR 0x27 # x @ CHR 0x27 # '' is not in list''))"
| "list_index (y # ys) x =
     (if y = x then Inr 0 else and_then (list_index ys x) (\<lambda>i. Inr (Suc i)))"

text \<open>
  \<^verbatim>\<open>xs[i]\<close>: a negative index counts from the end, an index out of range is an
  \<^verbatim>\<open>IndexError\<close>.
\<close>

definition getitem :: "'a list \<Rightarrow> int \<Rightarrow> error + 'a" where
  "getitem xs i =
     (if 0 \<le> i \<and> i < int (length xs) then Inr (xs ! nat i)
      else if i < 0 \<and> - int (length xs) \<le> i then Inr (xs ! nat (int (length xs) + i))
      else Inl (IndexError ''list index out of range''))"

section \<open>Paths (posixpath)\<close>

text \<open>
  The code builds paths with a literal \<^verbatim>\<open>/\<close>, so the POSIX flavour of \<^verbatim>\<open>os.path\<close> is
  the one modelled. \<^verbatim>\<open>join\<close>, \<^verbatim>\<open>dirname\<close> and \<^verbatim>\<open>basename\<close> are functions of the string
  alone; \<open>path_head p\<close> is \<^verbatim>\<open>p[:p.rfind('/') + 1]\<close>.
\<close>

definition path_join :: "string \<Rightarrow> string \<Rightarrow> string" where
  "path_join a b =
     (if prefix ''/'' b then b
      else if a = [] \<or> last a = CHR ''/'' then a @ b
      else a @ ''/'' @ b)"

definition path_head :: "string \<Rightarrow> string" where
  "path_head p = rev (dropWhile (\<lambda>c. c \<noteq> CHR ''/'') (rev p))"

definition dirname :: "string \<Rightarrow> string" where
  "dirname p =
     (let h = path_head p
      in if h \<noteq> [] \<and> (\<exists>c \<in> set h. c \<noteq> CHR ''/'') then rstrip_slash h else h)"

definition basename :: "string \<Rightarrow> string" where
  "basename p = rev (takeWhile (\<lambda>c. c \<noteq> CHR ''/'') (rev p))"

section \<open>Notebook documents\<close>

text \<open>
  A notebook cell is a dictionary; the keys that \<^verbatim>\<open>strip_answers\<close> reads or writes are
  the fields of the record. \<open>execution_count = None\<close> is Python's \<^verbatim>\<open>None\<close>;
  \<open>prompt_number = None\<close> says that the legacy key is absent.
\<close>

record cell =
  cell_type :: string
  source :: string
  outputs :: "string list"
  execution_count :: "int option"
  prompt_number :: "int option"

record notebook =
  cells :: "cell list"
  metadata :: string

text \<open>\<^verbatim>\<open>xs.pop(i)\<close> for an index within range: the list without its \<open>i\<close>-th element.\<close>

definition pop :: "nat \<Rightarrow> 'a list \<Rightarrow> 'a list" where
  "pop i xs = take i xs @ drop (Suc i) xs"

text \<open>
  The body of the loop on a code cell that is kept: the source is cut after
  the marker when the marker was found at \<open>ix\<close>, the outputs are emptied on request, the
  execution count is set to \<^verbatim>\<open>None\<close> and the key \<^verbatim>\<open>prompt_number\<close> is dropped.
\<close>

definition clean_cell :: "string \<Rightarrow> bool \<Rightarrow> cell \<Rightarrow> cell" where
  "clean_cell strip_string clean_outputs c =
     (let ix = str_find (source c) strip_string;
          c1 = (if ix \<noteq> - 1
                then c\<lparr>source := take (nat (ix + int (length strip_string))) (source c) @ ''\<newline>''\<rparr>
                else c);
          c2 = (if clean_outputs then c1\<lparr>outputs := []\<rparr> else c1)
      in c2\<lparr>execution_count := None, prompt_number := None\<rparr>)"

text \<open>
  The loop \<^verbatim>\<open>for ii, cell in enumerate(nb['cells'])\<close>. Python's list iterator keeps an
  index into the live list and stops when the index reaches the current length, and the
  counter of \<^verbatim>\<open>enumerate\<close> advances with it, so both are the one argument \<open>ii\<close>. The
  list is mutated while it is iterated: \<^verbatim>\<open>pop(ii)\<close> shortens it, and a write to a field
  of \<^verbatim>\<open>cell\<close> updates the element at position \<open>ii\<close>.
\<close>

function strip_loop :: "string \<Rightarrow> bool \<Rightarrow> bool \<Rightarrow> nat \<Rightarrow> cell list \<Rightarrow> cell list" where
  "strip_loop strip_string remove_cell clean_outputs ii cs =
     (if length cs \<le> ii then cs
      else if cell_type (cs ! ii) \<noteq> ''code''
        then strip_loop strip_string remove_cell clean_outputs (Suc ii) cs
      else if str_find (source (cs ! ii)) strip_string \<noteq> - 1 \<and> remove_cell
        then strip_loop strip_string remove_cell clean_outputs (Suc ii) (pop ii cs)
      else strip_loop strip_string remove_cell clean_outputs (Suc ii)
             (cs[ii := clean_cell strip_string clean_outputs (cs ! ii)]))"
  by pat_completeness auto
termination
  by (relation "measure (\<lambda>(s, r, c, ii, cs). length cs - ii)") (auto simp: pop_def)

declare strip_loop.simps [simp del]

section \<open>The notebook cells after sanitization\<close>

text \<open>
  What \<^verbatim>\<open>strip_answers\<close> does to the document it has read, before the optional save.
\<close>

definition strip_cells :: "string \<Rightarrow> bool \<Rightarrow> bool \<Rightarrow> notebook \<Rightarrow> notebook" where
  "strip_cells strip_string remove_cell clean_outputs nb =
     nb\<lparr>cells := strip_loop strip_string remove_cell clean_outputs 0 (cells nb)\<rparr>"

section \<open>URL rewriting\<close>

text \<open>
  \<^verbatim>\<open>_convert_url_to_downloadable\<close> (io.py). \<^verbatim>\<open>url_parts.index('d')\<close> raises a
  \<^verbatim>\<open>ValueError\<close> when no segment is \<^verbatim>\<open>d\<close>, and the subscript raises an \<^verbatim>\<open>IndexError\<close>
  when \<^verbatim>\<open>d\<close> is the last segment.
\<close>

definition convert_url_to_downloadable :: "string \<Rightarrow> error + string" where
  "convert_url_to_downloadable url =
     (if sublist ''drive.google.com'' url then
        and_then (str_split url ''/'') (\<lambda>url_parts.
        and_then (list_index url_parts ''d'') (\<lambda>i.
        and_then (getitem url_parts (int i + 1)) (\<lambda>file_id.
        let base_url = ''https://drive.google.com/uc?export=download&id=''
        in Inr (base_url @ file_id))))
      else if sublist ''www.dropbox.com'' url then
        Inr (str_replace url ''www.dropbox.com'' ''dl.dropboxusercontent.com'')
      else Inr url)"

text \<open>
  \<^verbatim>\<open>url_to_interact\<close> (utils.py). The value returned is modelled; the line printed to
  standard output repeats it.
\<close>

definition url_to_interact :: "string \<Rightarrow> string \<Rightarrow> error + string" where
  "url_to_interact url url_type =
     (if \<not> (sublist ''data-8'' url \<or> sublist ''data8.org'' url)
        then Inl (ValueError ''Provide a URL attached to a data-8 repository'')
      else
        and_then
          (if sublist ''github.com'' url then Inr ''data-8/''
           else if sublist ''data8.org'' url then Inr ''data8.org/''
           else Inl (ValueError ''Provide a URL for github.com or data8.org''))
          (\<lambda>repo_split.
        and_then (str_split url repo_split) (\<lambda>ps.
        and_then (getitem ps (- 1)) (\<lambda>tail.
        and_then (str_split tail ''/'') (\<lambda>qs.
        and_then (getitem qs 0) (\<lambda>repo.
        let name_split = (if sublist ''github.com'' url then ''gh-pages/'' else repo @ ''/'')
        in
        and_then (str_split url name_split) (\<lambda>ns.
        and_then (getitem ns (- 1)) (\<lambda>name.
        Inr (''https://'' @ url_type @ ''.berkeley.edu/hub/interact?repo='' @ repo
               @ ''&path='' @ name)))))))))"

section \<open>The environment: file system, network and notebook files\<close>

text \<open>
  The functions of \<^verbatim>\<open>os\<close>, \<^verbatim>\<open>os.path\<close>, \<^verbatim>\<open>mne\<close>, \<^verbatim>\<open>zipfile\<close> and \<^verbatim>\<open>nbformat\<close> that
  read or change the world outside the program are parameters of the model, collected in
  a record over an arbitrary type \<open>'w\<close> of worlds. A query reads the world; an action
  returns the world it leaves behind and the exception it raised, if any. The theorems
  hold whatever these functions do.

  \<open>os_extractall os tmpfile out_path\<close> stands for the two lines
  \<^verbatim>\<open>myzip = ZipFile(tmpfile); myzip.extractall(out_path)\<close>, and
  \<open>os_nbformat_read os w nbpath\<close> for \<^verbatim>\<open>nbformat.read(nbpath, 4)\<close>.
\<close>

record 'w os =
  os_expanduser :: "string \<Rightarrow> string"
  os_isdir :: "'w \<Rightarrow> string \<Rightarrow> bool"
  os_exists :: "'w \<Rightarrow> string \<Rightarrow> bool"
  os_makedirs :: "string \<Rightarrow> 'w \<Rightarrow> error option \<times> 'w"
  os_remove :: "string \<Rightarrow> 'w \<Rightarrow> error option \<times> 'w"
  os_fetch_file :: "string \<Rightarrow> string \<Rightarrow> 'w \<Rightarrow> error option \<times> 'w"
  os_extractall :: "string \<Rightarrow> string \<Rightarrow> 'w \<Rightarrow> error option \<times> 'w"
  os_nbformat_read :: "'w \<Rightarrow> string \<Rightarrow> error + notebook"
  os_nbformat_write :: "notebook \<Rightarrow> string \<Rightarrow> 'w \<Rightarrow> error option \<times> 'w"

text \<open>
  Every action the program performs is appended to a trace, so that a property such as
  "no network fetch is attempted" is a property of the trace. Messages printed to
  standard output are not modelled.
\<close>

datatype event =
    MakeDirs string
  | Fetch string string
  | Extract string string
  | Remove string
  | NbWrite string

record 'w sys =
  trace :: "event list"
  world :: 'w

type_synonym ('w, 'a) prog = "'w sys \<Rightarrow> (error + 'a) \<times> 'w sys"

definition returns :: "'a \<Rightarrow> ('w, 'a) prog" where
  "returns x s = (Inr x, s)"

definition throw :: "error \<Rightarrow> ('w, 'a) prog" where
  "throw e s = (Inl e, s)"

definition lift :: "error + 'a \<Rightarrow> ('w, 'a) prog" where
  "lift r s = (r, s)"

definition then_do :: "('w, 'a) prog \<Rightarrow> ('a \<Rightarrow> ('w, 'b) prog) \<Rightarrow> ('w, 'b) prog" where
  "then_do m f s = (case m s of (Inl e, s') \<Rightarrow> (Inl e, s') | (Inr x, s') \<Rightarrow> f x s')"

definition effect :: "event \<Rightarrow> ('w \<Rightarrow> error option \<times> 'w) \<Rightarrow> ('w, unit) prog" where
  "effect ev act s =
     (case act (world s) of
        (None, w) \<Rightarrow> (Inr (), \<lparr>trace = trace s @ [ev], world = w\<rparr>)
      | (Some e, w) \<Rightarrow> (Inl e, \<lparr>trace = trace s @ [ev], world = w\<rparr>))"

text \<open>The recurring lines \<^verbatim>\<open>if not op.isdir(p): os.makedirs(p)\<close>.\<close>

definition ensure_dir :: "'w os \<Rightarrow> string \<Rightarrow> ('w, unit) prog" where
  "ensure_dir os p s =
     (if \<not> os_isdir os (world s) p then effect (MakeDirs p) (os_makedirs os p) s
      else returns () s)"

section \<open>Downloading a file\<close>

text \<open>\<^verbatim>\<open>download_file\<close> (io.py), statement by statement.\<close>

definition download_file ::
  "'w os \<Rightarrow> string \<Rightarrow> string \<Rightarrow> string \<Rightarrow> bool \<Rightarrow> bool \<Rightarrow> ('w, unit) prog" where
  "download_file os url name root_destination zipfile replace =
     (let home = os_expanduser os ''~'';
          tmpfile = home @ ''/tmp/tmp''
      in
      then_do (ensure_dir os (home @ ''/data/'')) (\<lambda>_.
      then_do (ensure_dir os (home @ ''/tmp/'')) (\<lambda>_.
      then_do (lift (convert_url_to_downloadable url)) (\<lambda>download_path.
      let out_path = os_expanduser os (path_join root_destination name)
      in
      then_do (ensure_dir os (dirname out_path)) (\<lambda>_.
      if zipfile then
        then_do (effect (Fetch download_path tmpfile) (os_fetch_file os download_path tmpfile)) (\<lambda>_.
        then_do (effect (Extract tmpfile out_path) (os_extractall os tmpfile out_path)) (\<lambda>_.
        effect (Remove tmpfile) (os_remove os tmpfile)))
      else if length name = 0 then
        throw (ValueError ''Cannot overwrite the root data directory'')
      else (\<lambda>s.
        if \<not> replace \<and> os_exists os (world s) out_path then
          throw (ValueError (''Path '' @ out_path @ '' exists, use `replace=True` to overwrite'')) s
        else effect (Fetch download_path out_path) (os_fetch_file os download_path out_path) s))))))"

section \<open>Sanitizing a notebook\<close>

text \<open>
  \<^verbatim>\<open>strip_answers\<close> (io.py). The tuple assignment \<^verbatim>\<open>name, ext = filename.split('.')\<close>
  raises a \<^verbatim>\<open>ValueError\<close> unless the split has exactly two parts. The parameter
  \<open>keep_strip_string\<close> is accepted as in the source.
\<close>

definition strip_answers ::
  "'w os \<Rightarrow> string \<Rightarrow> string \<Rightarrow> string \<Rightarrow> bool \<Rightarrow> bool \<Rightarrow> bool \<Rightarrow> bool \<Rightarrow> string option
     \<Rightarrow> ('w, notebook) prog" where
  "strip_answers os nbpath strip_string output_suffix keep_strip_string remove_cell
       clean_outputs save path_save =
     then_do (\<lambda>s. lift (os_nbformat_read os (world s) nbpath) s) (\<lambda>nb0.
     let nb = strip_cells strip_string remove_cell clean_outputs nb0
     in
     if save then
       (let filename = basename nbpath;
            path_save = (case path_save of None \<Rightarrow> dirname nbpath | Some p \<Rightarrow> p)
        in
        then_do (lift (str_split filename ''.'')) (\<lambda>parts.
        case parts of
          [name, ext] \<Rightarrow>
            (let outname = name @ ''_'' @ output_suffix @ ''.'' @ ext;
                 save_file = path_save @ ''/'' @ outname
             in
             then_do (ensure_dir os path_save) (\<lambda>_.
             then_do (effect (NbWrite save_file) (os_nbformat_write os nb save_file)) (\<lambda>_.
             returns nb)))
        | [_] \<Rightarrow> throw (ValueError ''not enough values to unpack (expected 2, got 1)'')
        | _ \<Rightarrow> throw (ValueError ''too many values to unpack (expected 2)'')))
     else returns nb)"

section \<open>Loading fMRI data\<close>

text \<open>
  An array with at least two axes, as the volumes of an fMRI run are: the entries along
  the first (time) axis, and the shape of the remaining axes. The type of an entry is
  left open.
\<close>

record 'a ndarray =
  frames :: "'a list"
  frame_shape :: "nat list"

text \<open>
  The library calls of \<^verbatim>\<open>load_fmri_data\<close> are parameters of the model:
  \<open>nii_load lib f dtype\<close> stands for \<^verbatim>\<open>nibabel.load(f).get_data().T.astype(dtype)\<close>,
  which raises when the file cannot be read; \<open>mask_select lib tmp m\<close> for the indexing
  \<^verbatim>\<open>tmp[:, m]\<close>, which raises when the mask does not fit; and \<open>zscore lib tmp\<close> for
  \<^verbatim>\<open>scipy.stats.zscore(tmp, axis=0)\<close>.
\<close>

record ('a, 'm, 'dt) nilib =
  nii_load :: "string \<Rightarrow> 'dt \<Rightarrow> error + 'a ndarray"
  mask_select :: "'a ndarray \<Rightarrow> 'm \<Rightarrow> error + 'a ndarray"
  zscore :: "'a ndarray \<Rightarrow> 'a ndarray"

text \<open>
  \<^verbatim>\<open>np.vstack\<close> on arrays with at least two axes: the concatenation along the first
  axis. It raises a \<^verbatim>\<open>ValueError\<close> on an empty sequence and when the other axes differ
  (the messages are shortened). Arrays with a single axis, which \<^verbatim>\<open>np.vstack\<close> stacks
  as rows, are not arrays of this type: a value with an empty \<open>frame_shape\<close> stands for
  no array of the program.
\<close>

definition vstack :: "'a ndarray list \<Rightarrow> error + 'a ndarray" where
  "vstack arrs =
     (case arrs of
        [] \<Rightarrow> Inl (ValueError ''need at least one array to concatenate'')
      | a # rest \<Rightarrow>
          if list_all (\<lambda>b. frame_shape b = frame_shape a) rest
          then Inr \<lparr>frames = concat (map frames arrs), frame_shape = frame_shape a\<rparr>
          else Inl (ValueError ''all the input array dimensions except for the concatenation axis must match exactly''))"

text \<open>
  The loop of \<^verbatim>\<open>load_fmri_data\<close> over the files, with the list \<open>data\<close> it appends to.
  The parameter \<^verbatim>\<open>mask\<close> is called \<open>vmask\<close> here.
\<close>

fun load_loop ::
  "('a, 'm, 'dt) nilib \<Rightarrow> bool \<Rightarrow> 'm option \<Rightarrow> 'dt \<Rightarrow> string list \<Rightarrow> 'a ndarray list
     \<Rightarrow> error + 'a ndarray list" where
  "load_loop lib do_zscore vmask dtype [] data = Inr data"
| "load_loop lib do_zscore vmask dtype (f # files) data =
     and_then (nii_load lib f dtype) (\<lambda>tmp.
     and_then (case vmask of None \<Rightarrow> Inr tmp | Some m \<Rightarrow> mask_select lib tmp m) (\<lambda>tmp.
     let tmp = (if do_zscore then zscore lib tmp else tmp)
     in load_loop lib do_zscore vmask dtype files (data @ [tmp])))"

definition load_fmri_data ::
  "('a, 'm, 'dt) nilib \<Rightarrow> string list \<Rightarrow> bool \<Rightarrow> 'm option \<Rightarrow> 'dt \<Rightarrow> error + 'a ndarray" where
  "load_fmri_data lib files do_zscore vmask dtype =
     and_then (load_loop lib do_zscore vmask dtype files []) vstack"

text \<open>
  The specification's description of the loader, to compare with the loop: the array
  of one file is the file loaded, then reduced by the mask if there is one, then
  standardized on its own if z-scoring is requested; the arrays of the files are taken
  in input order, and the first file that fails makes the whole call fail.
\<close>

definition spec_file_array ::
  "('a, 'm, 'dt) nilib \<Rightarrow> bool \<Rightarrow> 'm option \<Rightarrow> 'dt \<Rightarrow> string \<Rightarrow> error + 'a ndarray" where
  "spec_file_array lib do_zscore vmask dtype f =
     and_then (nii_load lib f dtype) (\<lambda>loaded.
     and_then (case vmask of None \<Rightarrow> Inr loaded | Some m \<Rightarrow> mask_select lib loaded m) (\<lambda>masked.
     Inr (if do_zscore then zscore lib masked else masked)))"

fun spec_file_arrays ::
  "('a, 'm, 'dt) nilib \<Rightarrow> bool \<Rightarrow> 'm option \<Rightarrow> 'dt \<Rightarrow> string list \<Rightarrow> error + 'a ndarray list" where
  "spec_file_arrays lib do_zscore vmask dtype [] = Inr []"
| "spec_file_arrays lib do_zscore vmask dtype (f # files) =
     and_then (spec_file_array lib do_zscore vmask dtype f) (\<lambda>a.
     and_then (spec_file_arrays lib do_zscore vmask dtype files) (\<lambda>rest. Inr (a # rest)))"

text \<open>
  An assumption on the environment that some theorems need: creating directories does
  not make the path \<open>q\<close> disappear.
\<close>

definition makedirs_keeps :: "'w os \<Rightarrow> string \<Rightarrow> bool" where
  "makedirs_keeps os q \<longleftrightarrow>
     (\<forall>p w. os_exists os w q \<longrightarrow> os_exists os (snd (os_makedirs os p w)) q)"

section \<open>A concrete environment\<close>

text \<open>
  A small world on which the model runs: the directories and files that exist, by
  name, what the network serves, and the notebook files. The home directory is
  \<^verbatim>\<open>/home/user\<close>; \<open>test_expanduser\<close> replaces a leading \<^verbatim>\<open>~\<close> that stands alone or
  before a \<^verbatim>\<open>/\<close>, as \<^verbatim>\<open>os.path.expanduser\<close> does when no other user is known. A
  directory is named with or without trailing slashes. The general theorems do not
  depend on this environment; it serves to run the model on concrete calls.
\<close>

record fsys =
  fs_dirs :: "string list"
  fs_files :: "(string \<times> string) list"
  fs_remote :: "(string \<times> string) list"
  fs_notebooks :: "(string \<times> notebook) list"

definition test_expanduser :: "string \<Rightarrow> string" where
  "test_expanduser p =
     (if p = ''~'' \<or> prefix ''~/'' p then ''/home/user'' @ drop 1 p else p)"

definition dir_name :: "string \<Rightarrow> string" where
  "dir_name p = (if p \<noteq> [] \<and> rstrip_slash p = [] then ''/'' else rstrip_slash p)"

definition test_isdir :: "fsys \<Rightarrow> string \<Rightarrow> bool" where
  "test_isdir w p \<longleftrightarrow> p \<noteq> [] \<and> dir_name p \<in> set (fs_dirs w)"

definition test_exists :: "fsys \<Rightarrow> string \<Rightarrow> bool" where
  "test_exists w p \<longleftrightarrow> test_isdir w p \<or> p \<in> fst ` set (fs_files w)"

definition test_makedirs :: "string \<Rightarrow> fsys \<Rightarrow> error option \<times> fsys" where
  "test_makedirs p w =
     (if p = [] then (Some (OSError ''No such file or directory''), w)
      else if test_exists w p then (Some (OSError ''File exists''), w)
      else (None, w\<lparr>fs_dirs := dir_name p # fs_dirs w\<rparr>))"

definition test_remove :: "string \<Rightarrow> fsys \<Rightarrow> error option \<times> fsys" where
  "test_remove p w =
     (if p \<in> fst ` set (fs_files w)
      then (None, w\<lparr>fs_files := filter (\<lambda>f. fst f \<noteq> p) (fs_files w)\<rparr>)
      else (Some (OSError ''No such file or directory''), w))"

definition test_fetch_file :: "string \<Rightarrow> string \<Rightarrow> fsys \<Rightarrow> error option \<times> fsys" where
  "test_fetch_file url dest w =
     (case map_of (fs_remote w) url of
        None \<Rightarrow> (Some (OSError ''Not Found''), w)
      | Some bytes \<Rightarrow> (None, w\<lparr>fs_files := (dest, bytes) # filter (\<lambda>f. fst f \<noteq> dest) (fs_files w)\<rparr>))"

definition test_extractall :: "string \<Rightarrow> string \<Rightarrow> fsys \<Rightarrow> error option \<times> fsys" where
  "test_extractall zipname dest w =
     (case map_of (fs_files w) zipname of
        None \<Rightarrow> (Some (OSError ''No such file or directory''), w)
      | Some bytes \<Rightarrow> (None, w\<lparr>fs_dirs := dir_name dest # fs_dirs w,
                                fs_files := (path_join dest ''member'', bytes) # fs_files w\<rparr>))"

definition test_nbformat_read :: "fsys \<Rightarrow> string \<Rightarrow> error + notebook" where
  "test_nbformat_read w p =
     (case map_of (fs_notebooks w) p of
        None \<Rightarrow> Inl (OSError ''No such file or directory'')
      | Some nb \<Rightarrow> Inr nb)"

definition test_nbformat_write :: "notebook \<Rightarrow> string \<Rightarrow> fsys \<Rightarrow> error option \<times> fsys" where
  "test_nbformat_write nb p w = (None, w\<lparr>fs_notebooks := (p, nb) # fs_notebooks w\<rparr>)"

definition test_os :: "fsys os" where
  "test_os =
     \<lparr>os_expanduser = test_expanduser, os_isdir = test_isdir, os_exists = test_exists,
      os_makedirs = test_makedirs, os_remove = test_remove,
      os_fetch_file = test_fetch_file, os_extractall = test_extractall,
      os_nbformat_read = test_nbformat_read, os_nbformat_write = test_nbformat_write\<rparr>"

text \<open>Two answer cells and a cell without the marker, and notebooks made of them.\<close>

definition answer1 :: cell where
  "answer1 = \<lparr>cell_type = ''code'', source = ''x = 1 ### STUDENT ANSWER x = 2'',
     outputs = [''2''], execution_count = Some 1, prompt_number = None\<rparr>"

definition answer2 :: cell where
  "answer2 = \<lparr>cell_type = ''code'', source = ''### STUDENT ANSWER y = 3'',
     outputs = [''3''], execution_count = Some 2, prompt_number = None\<rparr>"

definition plot_cell :: cell where
  "plot_cell = \<lparr>cell_type = ''code'', source = ''plot(x)'',
     outputs = [''figure''], execution_count = Some 3, prompt_number = None\<rparr>"

definition test_world :: "notebook \<Rightarrow> fsys sys" where
  "test_world nb =
     \<lparr>trace = [],
      world = \<lparr>fs_dirs = [''/home/user'', ''/home/user/data'', ''/home/user/tmp'', ''/home/user/nb''],
               fs_files = [(''/home/user/data/run1.nii'', ''old bytes'')],
               fs_remote = [(''https://example.org/run1.nii'', ''new bytes'')],
               fs_notebooks = [(''/home/user/nb/hw.ipynb'', nb)]\<rparr>\<rparr>"

text \<open>
  What the loop does to a cell when no cell is removed: a code cell is cleaned, any
  other cell is left as it is.
\<close>

definition keep_cell :: "string \<Rightarrow> bool \<Rightarrow> cell \<Rightarrow> cell" where
  "keep_cell strip_string clean_outputs c =
     (if cell_type c = ''code'' then clean_cell strip_string clean_outputs c else c)"

text \<open>
  A concrete image library over real numbers: two runs of two voxels each, with two
  and four time points, a boolean mask over the voxels, and the standardization of every
  voxel over time with the population standard deviation.
\<close>

definition col_mean :: "real list \<Rightarrow> real" where
  "col_mean xs = sum_list xs / real (length xs)"

definition col_std :: "real list \<Rightarrow> real" where
  "col_std xs = sqrt (col_mean (map (\<lambda>x. (x - col_mean xs)\<^sup>2) xs))"

definition column :: "real list ndarray \<Rightarrow> nat \<Rightarrow> real list" where
  "column a j = map (\<lambda>frame. frame ! j) (frames a)"

definition test_zscore :: "real list ndarray \<Rightarrow> real list ndarray" where
  "test_zscore a =
     a\<lparr>frames := map (\<lambda>frame. map (\<lambda>j. (frame ! j - col_mean (column a j)) / col_std (column a j))
                                  [0..<length frame]) (frames a)\<rparr>"

definition test_mask_select :: "real list ndarray \<Rightarrow> bool list \<Rightarrow> error + real list ndarray" where
  "test_mask_select a m =
     (if frame_shape a = [length m]
      then Inr \<lparr>frames = map (\<lambda>frame. map fst (filter snd (zip frame m))) (frames a),
                frame_shape = [length (filter id m)]\<rparr>
      else Inl (IndexError ''boolean index did not match indexed array''))"

definition test_nii_load :: "string \<Rightarrow> unit \<Rightarrow> error + real list ndarray" where
  "test_nii_load f dtype =
     (if f = ''run1.nii'' then Inr \<lparr>frames = [[1, 2], [3, 4]], frame_shape = [2]\<rparr>
      else if f = ''run2.nii''
        then Inr \<lparr>frames = [[10, 0], [14, 8], [10, 0], [14, 8]], frame_shape = [2]\<rparr>
      else Inl (OSError ''No such file or no access''))"

definition test_nilib :: "(real list, bool list, unit) nilib" where
  "test_nilib =
     \<lparr>nii_load = test_nii_load, mask_select = test_mask_select, zscore = test_zscore\<rparr>"

section \<open>Properties of the string primitives\<close>

lemma str_find_ge: "- 1 \<le> str_find s sub"
  by (induction s) (auto simp: Let_def)

lemma str_find_none: "str_find s sub = - 1 \<longleftrightarrow> \<not> sublist sub s"
proof (induction s)
  case Nil
  then show ?case by auto
next
  case (Cons c cs)
  have "- 1 \<le> str_find cs sub" by (rule str_find_ge)
  then have "str_find cs sub + 1 \<noteq> - 1" by arith
  with Cons show ?case
    by (auto simp: Let_def sublist_Cons_right)
qed

lemma str_find_first:
  "sublist sub s \<Longrightarrow>
     \<exists>pre rest. s = pre @ sub @ rest \<and> str_find s sub = int (length pre) \<and>
       (\<forall>pre' rest'. s = pre' @ sub @ rest' \<longrightarrow> length pre \<le> length pre')"
proof (induction s)
  case Nil
  then show ?case by auto
next
  case (Cons c cs)
  show ?case
  proof (cases "prefix sub (c # cs)")
    case True
    then obtain rest where r: "c # cs = sub @ rest" by (auto simp: prefix_def)
    have z: "str_find (c # cs) sub = 0" using True by simp
    have "c # cs = [] @ sub @ rest \<and> str_find (c # cs) sub = int (length ([]::string))
        \<and> (\<forall>pre' rest'. c # cs = pre' @ sub @ rest' \<longrightarrow> length ([]::string) \<le> length pre')"
      using r z by simp
    then show ?thesis by blast
  next
    case False
    with Cons.prems have sub: "sublist sub cs" by (simp add: sublist_Cons_right)
    from Cons.IH [OF sub] obtain pre rest where
      p: "cs = pre @ sub @ rest" "str_find cs sub = int (length pre)"
      "\<forall>pre' rest'. cs = pre' @ sub @ rest' \<longrightarrow> length pre \<le> length pre'" by blast
    have a: "c # cs = (c # pre) @ sub @ rest" using p(1) by simp
    have b: "str_find (c # cs) sub = int (length (c # pre))"
      using False p(2) by (simp add: Let_def)
    have c: "length (c # pre) \<le> length pre'" if h: "c # cs = pre' @ sub @ rest'" for pre' rest'
    proof (cases pre')
      case Nil
      with h have "prefix sub (c # cs)" by (simp add: prefix_def)
      with False show ?thesis by simp
    next
      case (Cons d ds)
      with h have "cs = ds @ sub @ rest'" by simp
      with p(3) have "length pre \<le> length ds" by blast
      with Cons show ?thesis by simp
    qed
    from a b c show ?thesis by blast
  qed
qed

lemma list_index_first: "x \<notin> set pre \<Longrightarrow> list_index (pre @ x # rest) x = Inr (length pre)"
  by (induction pre) (auto simp: and_then_def)

lemma getitem_nth: "i < length xs \<Longrightarrow> getitem xs (int i) = Inr (xs ! i)"
  by (simp add: getitem_def)

lemma getitem_last: "xs \<noteq> [] \<Longrightarrow> getitem xs (- 1) = Inr (last xs)"
  by (cases xs rule: rev_cases) (simp_all add: getitem_def nth_append)

lemma getitem_first: "xs \<noteq> [] \<Longrightarrow> getitem xs 0 = Inr (hd xs)"
  by (cases xs) (simp_all add: getitem_def)

lemma split_from_nonempty: "split_from sep cur s \<noteq> []"
  by (induction sep cur s rule: split_from.induct) (subst split_from.simps, simp)

lemma str_replace_absent:
  "old \<noteq> [] \<Longrightarrow> \<not> sublist old s \<Longrightarrow> str_replace s old new = s"
proof (induction s)
  case Nil
  then show ?case by (subst str_replace.simps) simp
next
  case (Cons c cs)
  from Cons.prems have np: "\<not> prefix old (c # cs)" and ns: "\<not> sublist old cs"
    by (auto simp: sublist_Cons_right)
  have "str_replace (c # cs) old new = c # str_replace cs old new"
    using Cons.prems(1) np by (subst str_replace.simps) simp
  with Cons.IH [OF Cons.prems(1) ns] show ?case by simp
qed

lemma str_replace_first:
  assumes "old \<noteq> []"
    and "\<forall>pre' post'. pre @ old @ post = pre' @ old @ post' \<longrightarrow> length pre \<le> length pre'"
  shows "str_replace (pre @ old @ post) old new = pre @ new @ str_replace post old new"
  using assms(2)
proof (induction pre)
  case Nil
  show ?case using assms(1) by (subst str_replace.simps) simp
next
  case (Cons c p)
  have np: "\<not> prefix old ((c # p) @ old @ post)"
  proof
    assume "prefix old ((c # p) @ old @ post)"
    then obtain r where "(c # p) @ old @ post = [] @ old @ r" by (auto simp: prefix_def)
    with Cons.prems have "length (c # p) \<le> length ([]::string)" by blast
    then show False by simp
  qed
  have m: "\<forall>pre' post'. p @ old @ post = pre' @ old @ post' \<longrightarrow> length p \<le> length pre'"
  proof (intro allI impI)
    fix pre' post'
    assume "p @ old @ post = pre' @ old @ post'"
    then have "(c # p) @ old @ post = (c # pre') @ old @ post'" by simp
    with Cons.prems have "length (c # p) \<le> length (c # pre')" by blast
    then show "length p \<le> length pre'" by simp
  qed
  have "str_replace ((c # p) @ old @ post) old new = c # str_replace (p @ old @ post) old new"
    using assms(1) np by (subst str_replace.simps) simp
  with Cons.IH [OF m] show ?case by simp
qed

lemma str_split_ok: "sep \<noteq> [] \<Longrightarrow> \<exists>ps. str_split s sep = Inr ps \<and> ps \<noteq> []"
  by (simp add: str_split_def split_from_nonempty)

section \<open>Properties of the notebook sanitizer\<close>

text \<open>
  When no cell is removed the list keeps its length, the iteration visits every cell
  once, and the loop is a map over the cells.
\<close>

lemma strip_loop_keep:
  "strip_loop ss False co ii cs = take ii cs @ map (keep_cell ss co) (drop ii cs)"
proof (induction ss "False" co ii cs rule: strip_loop.induct)
  case (1 ss co ii cs)
  show ?case
  proof (cases "length cs \<le> ii")
    case True
    then show ?thesis by (simp add: strip_loop.simps)
  next
    case False
    then have lt: "ii < length cs" by simp
    have d: "drop ii cs = cs ! ii # drop (Suc ii) cs"
      using lt by (simp add: Cons_nth_drop_Suc)
    show ?thesis
    proof (cases "cell_type (cs ! ii) = ''code''")
      case True
      have "strip_loop ss False co ii cs
          = strip_loop ss False co (Suc ii) (cs[ii := clean_cell ss co (cs ! ii)])"
        using lt True by (subst strip_loop.simps) simp
      also have "\<dots> = take (Suc ii) (cs[ii := clean_cell ss co (cs ! ii)])
            @ map (keep_cell ss co) (drop (Suc ii) (cs[ii := clean_cell ss co (cs ! ii)]))"
        using 1(3) lt True by simp
      also have "\<dots> = take ii cs @ map (keep_cell ss co) (drop ii cs)"
        using lt True by (simp add: d take_Suc_conv_app_nth keep_cell_def)
      finally show ?thesis .
    next
      case F: False
      have "strip_loop ss False co ii cs = strip_loop ss False co (Suc ii) cs"
        using lt F by (subst strip_loop.simps) simp
      also have "\<dots> = take (Suc ii) cs @ map (keep_cell ss co) (drop (Suc ii) cs)"
        using 1(1) lt F by simp
      also have "\<dots> = take ii cs @ map (keep_cell ss co) (drop ii cs)"
        using lt F by (simp add: d take_Suc_conv_app_nth keep_cell_def)
      finally show ?thesis .
    qed
  qed
qed

lemma strip_cells_keep:
  "cells (strip_cells ss False co nb) = map (keep_cell ss co) (cells nb)"
  by (simp add: strip_cells_def strip_loop_keep)

lemma then_do_Inr:
  "fst (then_do m f s) = Inr y \<Longrightarrow> \<exists>x s'. m s = (Inr x, s') \<and> fst (f x s') = Inr y"
  by (auto simp: then_do_def split: prod.splits sum.splits)

lemma strip_answers_returns:
  assumes "fst (strip_answers os nbpath ss suf keep rc co save path_save s) = Inr nb'"
    and "os_nbformat_read os (world s) nbpath = Inr nb"
  shows "nb' = strip_cells ss rc co nb"
  using assms
  by (auto simp: strip_answers_def then_do_def lift_def returns_def throw_def
        ensure_dir_def effect_def Let_def
      split: if_splits sum.splits list.splits prod.splits option.splits)

lemma strip_answers_no_save:
  "os_nbformat_read os (world s) nbpath = Inr nb \<Longrightarrow>
     strip_answers os nbpath ss suf keep rc co False path_save s
       = (Inr (strip_cells ss rc co nb), s)"
  by (simp add: strip_answers_def then_do_def lift_def returns_def)

lemma keep_cell_clears:
  "cell_type c = ''code'' \<Longrightarrow>
     outputs (keep_cell ss True c) = [] \<and> execution_count (keep_cell ss co c) = None"
  by (simp add: keep_cell_def clean_cell_def Let_def)

text \<open>
  Claim C7. With \<open>remove_cell = False\<close>, a code cell whose source contains the marker
  comes back with its source cut right after the first occurrence of the marker and one
  newline appended: if the source is \<open>pre @ strip_string @ rest\<close> with \<open>pre\<close> the shortest
  such prefix, the new source is \<open>pre @ strip_string\<close> followed by a newline, and nothing
  of \<open>rest\<close> is kept. The returned document has as many cells as the one read.
\<close>

theorem strip_answers_cuts_after_marker:
  assumes run: "fst (strip_answers os nbpath strip_string output_suffix keep_strip_string False
                      clean_outputs save path_save s) = Inr nb'"
    and rd: "os_nbformat_read os (world s) nbpath = Inr nb"
    and i: "i < length (cells nb)"
    and code: "cell_type (cells nb ! i) = ''code''"
    and marker: "sublist strip_string (source (cells nb ! i))"
  shows "length (cells nb') = length (cells nb) \<and>
         (\<exists>pre rest. source (cells nb ! i) = pre @ strip_string @ rest \<and>
            (\<forall>pre' rest'. source (cells nb ! i) = pre' @ strip_string @ rest'
                 \<longrightarrow> length pre \<le> length pre') \<and>
            source (cells nb' ! i) = pre @ strip_string @ ''\<newline>'')"
proof -
  have nb': "cells nb' = map (keep_cell strip_string clean_outputs) (cells nb)"
    using strip_answers_returns [OF run rd] by (simp add: strip_cells_keep)
  from str_find_first [OF marker] obtain pre rest where
    p: "source (cells nb ! i) = pre @ strip_string @ rest"
       "str_find (source (cells nb ! i)) strip_string = int (length pre)"
       "\<forall>pre' rest'. source (cells nb ! i) = pre' @ strip_string @ rest'
           \<longrightarrow> length pre \<le> length pre'" by blast
  have "source (clean_cell strip_string clean_outputs (cells nb ! i))
          = take (length pre + length strip_string) (pre @ strip_string @ rest) @ ''\<newline>''"
    using p(1,2) by (simp add: clean_cell_def Let_def nat_add_distrib)
  then have "source (cells nb' ! i) = pre @ strip_string @ ''\<newline>''"
    using nb' i code by (simp add: keep_cell_def)
  with p(1,3) nb' show ?thesis by auto
qed


theorem strip_answers_cuts_after_marker_witness:
  "fst (strip_answers test_os ''/home/user/nb/hw.ipynb'' ''### STUDENT ANSWER'' ''student''
          True False True False None (test_world \<lparr>cells = [answer1, plot_cell], metadata = []\<rparr>))
     = Inr (strip_cells ''### STUDENT ANSWER'' False True \<lparr>cells = [answer1, plot_cell], metadata = []\<rparr>)
   \<and> length (cells (strip_cells ''### STUDENT ANSWER'' False True
                     \<lparr>cells = [answer1, plot_cell], metadata = []\<rparr>)) = 2
   \<and> (\<exists>pre rest. source answer1 = pre @ ''### STUDENT ANSWER'' @ rest \<and>
         source (cells (strip_cells ''### STUDENT ANSWER'' False True
                     \<lparr>cells = [answer1, plot_cell], metadata = []\<rparr>) ! 0)
           = pre @ ''### STUDENT ANSWER'' @ ''\<newline>'')"
proof -
  let ?nb = "\<lparr>cells = [answer1, plot_cell], metadata = []\<rparr>"
  let ?s = "test_world ?nb"
  have rd: "os_nbformat_read test_os (world ?s) ''/home/user/nb/hw.ipynb'' = Inr ?nb"
    by (simp add: test_os_def test_world_def test_nbformat_read_def)
  have run: "fst (strip_answers test_os ''/home/user/nb/hw.ipynb'' ''### STUDENT ANSWER''
                ''student'' True False True False None ?s)
             = Inr (strip_cells ''### STUDENT ANSWER'' False True ?nb)"
    by (simp add: strip_answers_no_save [OF rd])
  have i: "0 < length (cells ?nb)" by simp
  have code: "cell_type (cells ?nb ! 0) = ''code''" by (simp add: answer1_def)
  have marker: "sublist ''### STUDENT ANSWER'' (source (cells ?nb ! 0))"
    by (simp add: answer1_def sublist_Cons_right)
  from strip_answers_cuts_after_marker [OF run rd i code marker] run
  show ?thesis by auto
qed

text \<open>
  Claim C1. With \<open>remove_cell = True\<close> every code cell that contains the marker should be
  gone from the returned cells, one cell less per match, also when matching cells are
  adjacent. The loop pops the current cell from the list it is iterating and then
  advances its index, so the cell that moved into the freed position is never visited.
  On a notebook of two adjacent answer cells the second one is returned, unchanged, and
  the count drops by one instead of two.
\<close>

theorem strip_answers_adjacent_answer_survives:
  "fst (strip_answers test_os ''/home/user/nb/hw.ipynb'' ''### STUDENT ANSWER'' ''student''
          True True True False None (test_world \<lparr>cells = [answer1, answer2], metadata = []\<rparr>))
     = Inr \<lparr>cells = [answer2], metadata = []\<rparr>
   \<and> cell_type answer2 = ''code'' \<and> sublist ''### STUDENT ANSWER'' (source answer2)"
  by (simp add: strip_answers_def then_do_def lift_def returns_def test_os_def test_world_def
        test_nbformat_read_def strip_cells_def strip_loop.simps answer1_def answer2_def pop_def)

text \<open>
  Claim C2. With \<open>clean_outputs = True\<close> every code cell of the returned document should
  have no outputs and no execution count, whatever the other flags. With
  \<open>remove_cell = True\<close> the cell after a removed cell is skipped by the iteration (the
  defect of claim C1), so it is returned with its outputs and its execution count.
\<close>

theorem strip_answers_skipped_cell_keeps_outputs:
  "fst (strip_answers test_os ''/home/user/nb/hw.ipynb'' ''### STUDENT ANSWER'' ''student''
          True True True False None (test_world \<lparr>cells = [answer1, plot_cell], metadata = []\<rparr>))
     = Inr \<lparr>cells = [plot_cell], metadata = []\<rparr>
   \<and> cell_type plot_cell = ''code'' \<and> outputs plot_cell = [''figure'']
   \<and> execution_count plot_cell = Some 3"
  by (simp add: strip_answers_def then_do_def lift_def returns_def test_os_def test_world_def
        test_nbformat_read_def strip_cells_def strip_loop.simps answer1_def plot_cell_def pop_def)

text \<open>
  When no cell is removed the property of claim C2 holds: every code cell of the
  returned document has empty outputs and no execution count.
\<close>

lemma strip_answers_clears_outputs_when_kept:
  assumes "fst (strip_answers os nbpath ss suf keep False True save path_save s) = Inr nb'"
    and "os_nbformat_read os (world s) nbpath = Inr nb"
    and "c \<in> set (cells nb')" and "cell_type c = ''code''"
  shows "outputs c = [] \<and> execution_count c = None"
proof -
  have "cells nb' = map (keep_cell ss True) (cells nb)"
    using strip_answers_returns [OF assms(1,2)] by (simp add: strip_cells_keep)
  with assms(3) obtain c0 where c0: "c = keep_cell ss True c0" by auto
  have "cell_type c0 = ''code''"
    using assms(4) c0 by (simp add: keep_cell_def clean_cell_def Let_def split: if_splits)
  with c0 show ?thesis by (simp add: keep_cell_clears)
qed

text \<open>
  Claim C10. The parameter \<open>keep_strip_string\<close> is never read: with all other arguments
  equal, the two values of the flag give the same program, hence the same returned
  document, the same actions on the file system and the same saved notebook.
\<close>

theorem strip_answers_ignores_keep_strip_string:
  "strip_answers os nbpath strip_string output_suffix True remove_cell clean_outputs save path_save
     = strip_answers os nbpath strip_string output_suffix False remove_cell clean_outputs save
         path_save"
  by (simp add: strip_answers_def)

section \<open>Properties of the URL rewriting\<close>

text \<open>
  Claim C6. For a URL that contains the google-drive marker and has a path segment
  \<^verbatim>\<open>d\<close> followed by another segment, \<^verbatim>\<open>_convert_url_to_downloadable\<close> takes the
  segment right after the (first) \<^verbatim>\<open>d\<close> segment as the file identifier and returns the
  fixed direct-download prefix with that identifier appended.
\<close>

theorem convert_url_drive_file_id:
  assumes "sublist ''drive.google.com'' url"
    and "str_split url ''/'' = Inr (pre @ ''d'' # file_id # post)"
    and "''d'' \<notin> set pre"
  shows "convert_url_to_downloadable url
           = Inr (''https://drive.google.com/uc?export=download&id='' @ file_id)"
proof -
  let ?parts = "pre @ ''d'' # file_id # post"
  have i: "list_index ?parts ''d'' = Inr (length pre)"
    using assms(3) by (rule list_index_first)
  have "getitem ?parts (int (Suc (length pre))) = Inr (?parts ! Suc (length pre))"
    by (rule getitem_nth) simp
  then have g: "getitem ?parts (int (length pre) + 1) = Inr file_id"
    by (simp add: nth_append add.commute)
  show ?thesis
    using assms(1) by (simp add: convert_url_to_downloadable_def assms(2) i g and_then_def)
qed

theorem convert_url_drive_file_id_witness:
  "convert_url_to_downloadable ''https://drive.google.com/file/d/1AbC/view?usp=sharing''
     = Inr ''https://drive.google.com/uc?export=download&id=1AbC''"
proof -
  have a: "sublist ''drive.google.com'' ''https://drive.google.com/file/d/1AbC/view?usp=sharing''"
    by (simp add: sublist_Cons_right)
  have b: "str_split ''https://drive.google.com/file/d/1AbC/view?usp=sharing'' ''/''
             = Inr ([''https:'', '''', ''drive.google.com'', ''file''] @ ''d'' # ''1AbC'' # [''view?usp=sharing''])"
    by (simp add: str_split_def split_from.simps)
  have c: "''d'' \<notin> set [''https:'', '''', ''drive.google.com'', ''file'']" by simp
  from convert_url_drive_file_id [OF a b c] show ?thesis by simp
qed

text \<open>
  Claim C5. For a dropbox link only the host should be replaced by the direct-content
  host, with path and query kept verbatim also when they contain the marker. The code
  swaps the host with \<^verbatim>\<open>str.replace\<close>, which rewrites every occurrence of the marker: on
  a link whose file name contains the marker the path is rewritten too, and the result
  no longer names the shared file.
\<close>

theorem convert_url_dropbox_rewrites_path:
  "convert_url_to_downloadable ''https://www.dropbox.com/s/abc/www.dropbox.com.txt?dl=0''
     = Inr ''https://dl.dropboxusercontent.com/s/abc/dl.dropboxusercontent.com.txt?dl=0''
   \<and> convert_url_to_downloadable ''https://www.dropbox.com/s/abc/www.dropbox.com.txt?dl=0''
     \<noteq> Inr (''https://'' @ ''dl.dropboxusercontent.com'' @ ''/s/abc/www.dropbox.com.txt?dl=0'')"
  by (simp add: convert_url_to_downloadable_def sublist_Cons_right str_replace.simps)


text \<open>
  The behaviour of the dropbox branch in general: the text before the first occurrence
  of the marker is kept, that occurrence is replaced, and the rest of the URL goes
  through \<^verbatim>\<open>str.replace\<close> again. A link in which the marker occurs only once, as its
  host, is rewritten as claim C5 says.
\<close>

lemma convert_url_dropbox_first_occurrence:
  assumes "\<not> sublist ''drive.google.com'' url"
    and "url = pre @ ''www.dropbox.com'' @ post"
    and "\<forall>pre' post'. url = pre' @ ''www.dropbox.com'' @ post' \<longrightarrow> length pre \<le> length pre'"
  shows "convert_url_to_downloadable url
           = Inr (pre @ ''dl.dropboxusercontent.com''
                    @ str_replace post ''www.dropbox.com'' ''dl.dropboxusercontent.com'')
         \<and> (\<not> sublist ''www.dropbox.com'' post \<longrightarrow>
              convert_url_to_downloadable url = Inr (pre @ ''dl.dropboxusercontent.com'' @ post))"
proof -
  have s: "sublist ''www.dropbox.com'' url"
    unfolding assms(2) sublist_def by blast
  have r: "str_replace url ''www.dropbox.com'' ''dl.dropboxusercontent.com''
        = pre @ ''dl.dropboxusercontent.com''
            @ str_replace post ''www.dropbox.com'' ''dl.dropboxusercontent.com''"
    unfolding assms(2) using assms(3) [unfolded assms(2)]
    by (intro str_replace_first) simp_all
  have c: "convert_url_to_downloadable url
      = Inr (str_replace url ''www.dropbox.com'' ''dl.dropboxusercontent.com'')"
    using assms(1) s by (simp add: convert_url_to_downloadable_def)
  show ?thesis
    using c r by (simp add: str_replace_absent)
qed

lemma convert_url_dropbox_single_occurrence_example:
  "convert_url_to_downloadable ''https://www.dropbox.com/s/abc/data.zip?dl=0''
     = Inr ''https://dl.dropboxusercontent.com/s/abc/data.zip?dl=0''"
proof -
  let ?url = "''https://www.dropbox.com/s/abc/data.zip?dl=0''"
  have a: "\<not> sublist ''drive.google.com'' ?url" by (simp add: sublist_Cons_right)
  have b: "?url = ''https://'' @ ''www.dropbox.com'' @ ''/s/abc/data.zip?dl=0''" by simp
  have s: "sublist ''www.dropbox.com'' ?url" by (simp add: sublist_Cons_right)
  have f: "str_find ?url ''www.dropbox.com'' = 8" by simp
  define u where "u = ?url"
  define m where "m = ''www.dropbox.com''"
  have su: "sublist m u" using s by (simp only: u_def m_def)
  have fu: "str_find u m = 8" using f by (simp only: u_def m_def)
  from str_find_first [OF su] obtain p :: string where
    p: "str_find u m = int (length p)"
       "\<forall>pre' post'. u = pre' @ m @ post' \<longrightarrow> length p \<le> length pre'"
    by blast
  from p(1) fu have "length p = 8" by simp
  have l: "length ''https://'' = (8::nat)" by simp
  have c: "\<forall>pre' post'. u = pre' @ m @ post' \<longrightarrow> length ''https://'' \<le> length pre'"
    using p(2) \<open>length p = 8\<close> unfolding l by simp
  note c' = c [unfolded u_def m_def]
  have d: "\<not> sublist ''www.dropbox.com'' ''/s/abc/data.zip?dl=0''"
    by (simp add: sublist_Cons_right)
  from conjunct2 [OF convert_url_dropbox_first_occurrence [OF a b c']]
  have "convert_url_to_downloadable ?url
          = Inr (''https://'' @ ''dl.dropboxusercontent.com'' @ ''/s/abc/data.zip?dl=0'')"
    using d by (rule mp)
  then show ?thesis by simp
qed
text \<open>
  Claim C9. \<^verbatim>\<open>url_to_interact\<close> raises a \<^verbatim>\<open>ValueError\<close> for every URL that contains
  neither \<^verbatim>\<open>data-8\<close> nor \<^verbatim>\<open>data8.org\<close>, and also for every URL that contains such a
  marker but neither \<^verbatim>\<open>github.com\<close> nor \<^verbatim>\<open>data8.org\<close>.
\<close>

theorem url_to_interact_rejects:
  "(\<not> sublist ''data-8'' url \<and> \<not> sublist ''data8.org'' url \<longrightarrow>
      url_to_interact url url_type
        = Inl (ValueError ''Provide a URL attached to a data-8 repository''))
   \<and> ((sublist ''data-8'' url \<or> sublist ''data8.org'' url) \<and>
        \<not> sublist ''github.com'' url \<and> \<not> sublist ''data8.org'' url \<longrightarrow>
      url_to_interact url url_type
        = Inl (ValueError ''Provide a URL for github.com or data8.org''))"
  by (simp add: url_to_interact_def and_then_def)

theorem url_to_interact_rejects_witness:
  "url_to_interact ''https://example.org/notebooks/lab01.ipynb'' ''data8''
     = Inl (ValueError ''Provide a URL attached to a data-8 repository'')
   \<and> url_to_interact ''https://gitlab.com/data-8/materials'' ''data8''
     = Inl (ValueError ''Provide a URL for github.com or data8.org'')"
proof -
  have a: "\<not> sublist ''data-8'' ''https://example.org/notebooks/lab01.ipynb''
           \<and> \<not> sublist ''data8.org'' ''https://example.org/notebooks/lab01.ipynb''"
    by (simp add: sublist_Cons_right)
  have b: "(sublist ''data-8'' ''https://gitlab.com/data-8/materials''
             \<or> sublist ''data8.org'' ''https://gitlab.com/data-8/materials'')
           \<and> \<not> sublist ''github.com'' ''https://gitlab.com/data-8/materials''
           \<and> \<not> sublist ''data8.org'' ''https://gitlab.com/data-8/materials''"
    by (simp add: sublist_Cons_right)
  from a url_to_interact_rejects [of "''https://example.org/notebooks/lab01.ipynb''" "''data8''"]
  have 1: "url_to_interact ''https://example.org/notebooks/lab01.ipynb'' ''data8''
     = Inl (ValueError ''Provide a URL attached to a data-8 repository'')" by blast
  from b url_to_interact_rejects [of "''https://gitlab.com/data-8/materials''" "''data8''"]
  have 2: "url_to_interact ''https://gitlab.com/data-8/materials'' ''data8''
     = Inl (ValueError ''Provide a URL for github.com or data8.org'')" by blast
  from 1 2 show ?thesis by simp
qed

text \<open>In every other case the function returns a link: it raises in no other way.\<close>

lemma url_to_interact_accepts:
  assumes "sublist ''data-8'' url \<or> sublist ''data8.org'' url"
    and "sublist ''github.com'' url \<or> sublist ''data8.org'' url"
  shows "\<exists>r. url_to_interact url url_type = Inr r"
proof -
  define repo_split where
    "repo_split = (if sublist ''github.com'' url then ''data-8/'' else ''data8.org/'')"
  have rs: "repo_split \<noteq> []" by (simp add: repo_split_def)
  from str_split_ok [OF rs] obtain ps where ps: "str_split url repo_split = Inr ps" "ps \<noteq> []"
    by blast
  have "''/'' \<noteq> ([]::string)" by simp
  from str_split_ok [OF this] obtain qs where
    qs: "str_split (last ps) ''/'' = Inr qs" "qs \<noteq> []" by blast
  define name_split where
    "name_split = (if sublist ''github.com'' url then ''gh-pages/'' else hd qs @ ''/'')"
  have ns: "name_split \<noteq> []" by (simp add: name_split_def)
  from str_split_ok [OF ns] obtain ns' where
    n: "str_split url name_split = Inr ns'" "ns' \<noteq> []" by blast
  show ?thesis
    using assms ps qs n
    by (auto simp: url_to_interact_def and_then_def getitem_last getitem_first
          repo_split_def name_split_def)
qed

section \<open>Properties of the download\<close>

text \<open>
  What one \<^verbatim>\<open>if not op.isdir(p): os.makedirs(p)\<close> can do: nothing, or one call of
  \<^verbatim>\<open>os.makedirs\<close>, which succeeds or raises.
\<close>

lemma ensure_dir_cases:
  assumes "ensure_dir os p s = (r, s')"
  shows "(r = Inr () \<and> s' = s)
       \<or> (trace s' = trace s @ [MakeDirs p] \<and> world s' = snd (os_makedirs os p (world s)) \<and>
           (r = Inr () \<and> fst (os_makedirs os p (world s)) = None
            \<or> (\<exists>e. r = Inl e \<and> fst (os_makedirs os p (world s)) = Some e)))"
  using assms
  by (auto simp: ensure_dir_def effect_def returns_def split: if_splits prod.splits option.splits)

lemma ensure_dir_trace:
  assumes "ensure_dir os p s = (r, s')"
  shows "\<exists>evs. trace s' = trace s @ evs \<and> set evs \<subseteq> {MakeDirs p}"
  using ensure_dir_cases [OF assms] by auto

lemma ensure_dir_error:
  assumes "ensure_dir os p s = (Inl e, s')"
  shows "\<exists>w. fst (os_makedirs os p w) = Some e"
  using ensure_dir_cases [OF assms] by auto

lemma ensure_dir_keeps:
  assumes "ensure_dir os p s = (r, s')" and "makedirs_keeps os q" and "os_exists os (world s) q"
  shows "os_exists os (world s') q"
  using ensure_dir_cases [OF assms(1)] assms(2,3) by (auto simp: makedirs_keeps_def)

text \<open>The common beginning of \<^verbatim>\<open>download_file\<close>, up to the branch on \<^verbatim>\<open>zipfile\<close>.\<close>

lemma download_file_unfold:
  "download_file os url name root_destination zipfile replace s =
     (case ensure_dir os (os_expanduser os ''~'' @ ''/data/'') s of
        (Inl e, s1) \<Rightarrow> (Inl e, s1)
      | (Inr _, s1) \<Rightarrow>
     (case ensure_dir os (os_expanduser os ''~'' @ ''/tmp/'') s1 of
        (Inl e, s2) \<Rightarrow> (Inl e, s2)
      | (Inr _, s2) \<Rightarrow>
     (case convert_url_to_downloadable url of
        Inl e \<Rightarrow> (Inl e, s2)
      | Inr download_path \<Rightarrow>
     (case ensure_dir os (dirname (os_expanduser os (path_join root_destination name))) s2 of
        (Inl e, s3) \<Rightarrow> (Inl e, s3)
      | (Inr _, s3) \<Rightarrow>
        (if zipfile then
           then_do (effect (Fetch download_path (os_expanduser os ''~'' @ ''/tmp/tmp''))
                      (os_fetch_file os download_path (os_expanduser os ''~'' @ ''/tmp/tmp''))) (\<lambda>_.
           then_do (effect (Extract (os_expanduser os ''~'' @ ''/tmp/tmp'') (os_expanduser os (path_join root_destination name)))
                      (os_extractall os (os_expanduser os ''~'' @ ''/tmp/tmp'') (os_expanduser os (path_join root_destination name)))) (\<lambda>_.
           effect (Remove (os_expanduser os ''~'' @ ''/tmp/tmp'')) (os_remove os (os_expanduser os ''~'' @ ''/tmp/tmp'')))) s3
         else if length name = 0 then
           (Inl (ValueError ''Cannot overwrite the root data directory''), s3)
         else if \<not> replace \<and> os_exists os (world s3) (os_expanduser os (path_join root_destination name)) then
           (Inl (ValueError (''Path '' @ os_expanduser os (path_join root_destination name)
                    @ '' exists, use `replace=True` to overwrite'')), s3)
         else effect (Fetch download_path (os_expanduser os (path_join root_destination name)))
                (os_fetch_file os download_path (os_expanduser os (path_join root_destination name))) s3)))))"
  by (simp add: download_file_def then_do_def lift_def throw_def Let_def
      split: prod.splits sum.splits)


lemma trace_extend:
  assumes "trace s1 = trace s @ ev1" and "set ev1 \<subseteq> D"
    and "\<exists>evs. trace s2 = trace s1 @ evs \<and> set evs \<subseteq> {x}" and "x \<in> D"
  shows "\<exists>evs. trace s2 = trace s @ evs \<and> set evs \<subseteq> D"
proof -
  from assms(3) obtain evs where "trace s2 = trace s1 @ evs" "set evs \<subseteq> {x}" by blast
  with assms(1,2,4) have "trace s2 = trace s @ (ev1 @ evs) \<and> set (ev1 @ evs) \<subseteq> D" by auto
  then show ?thesis by blast
qed

text \<open>
  Every call either fails early, in the creation of one of the three directories or in
  the rewriting of the URL, or reaches the branch on \<^verbatim>\<open>zipfile\<close>; up to there the only
  actions are directory creations.
\<close>

lemma download_file_steps:
  fixes os :: "'w os" and root_destination name :: string
  defines "home \<equiv> os_expanduser os ''~''"
    and "out_path \<equiv> os_expanduser os (path_join root_destination name)"
  defines "D \<equiv> {MakeDirs (home @ ''/data/''), MakeDirs (home @ ''/tmp/''),
                 MakeDirs (dirname out_path)}"
  obtains (early) e s3 evs where
      "download_file os url name root_destination zipfile replace s = (Inl e, s3)"
      "trace s3 = trace s @ evs" "set evs \<subseteq> D"
      "convert_url_to_downloadable url = Inl e \<or> (\<exists>p w. fst (os_makedirs os p w) = Some e)"
  | (ready) download_path s3 evs where
      "convert_url_to_downloadable url = Inr download_path"
      "trace s3 = trace s @ evs" "set evs \<subseteq> D"
      "\<And>q. makedirs_keeps os q \<Longrightarrow> os_exists os (world s) q \<Longrightarrow> os_exists os (world s3) q"
      "download_file os url name root_destination zipfile replace s =
        (if zipfile then
           then_do (effect (Fetch download_path (home @ ''/tmp/tmp''))
                      (os_fetch_file os download_path (home @ ''/tmp/tmp''))) (\<lambda>_.
           then_do (effect (Extract (home @ ''/tmp/tmp'') out_path)
                      (os_extractall os (home @ ''/tmp/tmp'') out_path)) (\<lambda>_.
           effect (Remove (home @ ''/tmp/tmp'')) (os_remove os (home @ ''/tmp/tmp'')))) s3
         else if length name = 0 then
           (Inl (ValueError ''Cannot overwrite the root data directory''), s3)
         else if \<not> replace \<and> os_exists os (world s3) out_path then
           (Inl (ValueError (''Path '' @ out_path @ '' exists, use `replace=True` to overwrite'')), s3)
         else effect (Fetch download_path out_path) (os_fetch_file os download_path out_path) s3)"
proof -
  obtain r1 s1 where e1: "ensure_dir os (home @ ''/data/'') s = (r1, s1)" by fastforce
  from ensure_dir_trace [OF e1] obtain ev1 where
    t1: "trace s1 = trace s @ ev1" "set ev1 \<subseteq> D" by (auto simp: D_def)
  show thesis
  proof (cases r1)
    case (Inl e)
    have "download_file os url name root_destination zipfile replace s = (Inl e, s1)"
      using e1 Inl by (simp add: download_file_unfold home_def)
    moreover have "\<exists>p w. fst (os_makedirs os p w) = Some e"
      using ensure_dir_error e1 Inl by fast
    ultimately show thesis using t1 early by blast
  next
    case i1: (Inr u1)
    obtain r2 s2 where e2: "ensure_dir os (home @ ''/tmp/'') s1 = (r2, s2)" by fastforce
    have "MakeDirs (home @ ''/tmp/'') \<in> D" by (simp add: D_def)
    from trace_extend [OF t1(1) t1(2) ensure_dir_trace [OF e2] this] obtain ev2 where
      t2: "trace s2 = trace s @ ev2" "set ev2 \<subseteq> D" by blast
    show thesis
    proof (cases r2)
      case (Inl e)
      have "download_file os url name root_destination zipfile replace s = (Inl e, s2)"
        using e1 i1 e2 Inl by (simp add: download_file_unfold home_def)
      moreover have "\<exists>p w. fst (os_makedirs os p w) = Some e"
        using ensure_dir_error e2 Inl by fast
      ultimately show thesis using t2 early by blast
    next
      case i2: (Inr u2)
      show thesis
      proof (cases "convert_url_to_downloadable url")
        case (Inl e)
        have "download_file os url name root_destination zipfile replace s = (Inl e, s2)"
          using e1 i1 e2 i2 Inl by (simp add: download_file_unfold home_def)
        then show thesis using t2 early Inl by blast
      next
        case c: (Inr download_path)
        obtain r3 s3 where e3: "ensure_dir os (dirname out_path) s2 = (r3, s3)" by fastforce
        have "MakeDirs (dirname out_path) \<in> D" by (simp add: D_def)
        from trace_extend [OF t2(1) t2(2) ensure_dir_trace [OF e3] this] obtain ev3 where
          t3: "trace s3 = trace s @ ev3" "set ev3 \<subseteq> D" by blast
        show thesis
        proof (cases r3)
          case (Inl e)
          have "download_file os url name root_destination zipfile replace s = (Inl e, s3)"
            using e1 i1 e2 i2 c e3 Inl
            by (simp add: download_file_unfold home_def out_path_def)
          moreover have "\<exists>p w. fst (os_makedirs os p w) = Some e"
            using ensure_dir_error e3 Inl by fast
          ultimately show thesis using t3 early by blast
        next
          case i3: (Inr u3)
          have k: "os_exists os (world s3) q"
            if "makedirs_keeps os q" "os_exists os (world s) q" for q
            using that ensure_dir_keeps [OF e1] ensure_dir_keeps [OF e2] ensure_dir_keeps [OF e3]
            by blast
          show thesis
            by (rule ready [OF c t3 k])
               (simp_all add: download_file_unfold e1 i1 e2 i2 c e3 i3
                  home_def [symmetric] out_path_def [symmetric])
        qed
      qed
    qed
  qed
qed


lemmas test_defs = download_file_def then_do_def lift_def throw_def returns_def effect_def
  ensure_dir_def test_os_def test_world_def test_isdir_def test_exists_def test_makedirs_def
  test_expanduser_def test_fetch_file_def dir_name_def rstrip_slash_def path_join_def
  dirname_def path_head_def convert_url_to_downloadable_def sublist_Cons_right Let_def

lemma test_makedirs_keeps: "makedirs_keeps test_os q"
  by (auto simp: makedirs_keeps_def test_os_def test_makedirs_def test_exists_def test_isdir_def)

text \<open>
  Claim C3. The claim says that with an empty name and \<open>zipfile = False\<close> the
  \<^verbatim>\<open>ValueError\<close> is raised before any directory other than the base data and tmp folders
  is created. The check of the name comes after the creation of the parent directory of
  the destination: with the root \<^verbatim>\<open>~/newdir/\<close>, which does not exist, while both base
  folders exist, the call creates \<^verbatim>\<open>/home/user/newdir\<close> and then raises.
\<close>

theorem download_file_empty_name_creates_parent:
  "fst (download_file test_os ''https://example.org/run1.nii'' [] ''~/newdir/'' False False
          (test_world \<lparr>cells = [], metadata = []\<rparr>))
     = Inl (ValueError ''Cannot overwrite the root data directory'')
   \<and> trace (snd (download_file test_os ''https://example.org/run1.nii'' [] ''~/newdir/'' False False
          (test_world \<lparr>cells = [], metadata = []\<rparr>)))
     = [MakeDirs ''/home/user/newdir'']
   \<and> os_isdir test_os (world (test_world \<lparr>cells = [], metadata = []\<rparr>))
         (os_expanduser test_os ''~'' @ ''/data/'')
   \<and> os_isdir test_os (world (test_world \<lparr>cells = [], metadata = []\<rparr>))
         (os_expanduser test_os ''~'' @ ''/tmp/'')"
  by (simp add: test_defs)

text \<open>
  Claim C3, amended. With an empty name and \<open>zipfile = False\<close> the call never returns
  normally, and it attempts no fetch, no extraction and no removal: its only actions are
  creations of the base data folder, of the base tmp folder and of the parent directory
  of the destination path, each when it is not yet a directory. When these three steps
  and the rewriting of the URL succeed, the call raises the invalid-input \<^verbatim>\<open>ValueError\<close>;
  otherwise it raises the exception of the first of these steps that failed, in the
  state that step left.
\<close>

theorem download_file_empty_name:
  "(\<exists>e. fst (download_file os url [] root_destination False replace s) = Inl e)
   \<and> (\<exists>evs. trace (snd (download_file os url [] root_destination False replace s))
                = trace s @ evs \<and>
            set evs \<subseteq> {MakeDirs (os_expanduser os ''~'' @ ''/data/''),
                        MakeDirs (os_expanduser os ''~'' @ ''/tmp/''),
                        MakeDirs (dirname (os_expanduser os (path_join root_destination [])))})
   \<and> (\<forall>s1 s2 s3 download_path.
          ensure_dir os (os_expanduser os ''~'' @ ''/data/'') s = (Inr (), s1) \<and>
          ensure_dir os (os_expanduser os ''~'' @ ''/tmp/'') s1 = (Inr (), s2) \<and>
          convert_url_to_downloadable url = Inr download_path \<and>
          ensure_dir os (dirname (os_expanduser os (path_join root_destination []))) s2
            = (Inr (), s3) \<longrightarrow>
          download_file os url [] root_destination False replace s
            = (Inl (ValueError ''Cannot overwrite the root data directory''), s3))
   \<and> (\<forall>e s1.
          ensure_dir os (os_expanduser os ''~'' @ ''/data/'') s = (Inl e, s1) \<longrightarrow>
          download_file os url [] root_destination False replace s = (Inl e, s1))
   \<and> (\<forall>e s1 s2.
          ensure_dir os (os_expanduser os ''~'' @ ''/data/'') s = (Inr (), s1) \<and>
          ensure_dir os (os_expanduser os ''~'' @ ''/tmp/'') s1 = (Inl e, s2) \<longrightarrow>
          download_file os url [] root_destination False replace s = (Inl e, s2))
   \<and> (\<forall>e s1 s2.
          ensure_dir os (os_expanduser os ''~'' @ ''/data/'') s = (Inr (), s1) \<and>
          ensure_dir os (os_expanduser os ''~'' @ ''/tmp/'') s1 = (Inr (), s2) \<and>
          convert_url_to_downloadable url = Inl e \<longrightarrow>
          download_file os url [] root_destination False replace s = (Inl e, s2))
   \<and> (\<forall>e s1 s2 s3 download_path.
          ensure_dir os (os_expanduser os ''~'' @ ''/data/'') s = (Inr (), s1) \<and>
          ensure_dir os (os_expanduser os ''~'' @ ''/tmp/'') s1 = (Inr (), s2) \<and>
          convert_url_to_downloadable url = Inr download_path \<and>
          ensure_dir os (dirname (os_expanduser os (path_join root_destination []))) s2
            = (Inl e, s3) \<longrightarrow>
          download_file os url [] root_destination False replace s = (Inl e, s3))"
proof -
  obtain r s' where run: "download_file os url [] root_destination False replace s = (r, s')"
    by fastforce
  have fails: "\<exists>e. r = Inl e"
    and only_dirs: "\<exists>evs. trace s' = trace s @ evs \<and>
            set evs \<subseteq> {MakeDirs (os_expanduser os ''~'' @ ''/data/''),
                        MakeDirs (os_expanduser os ''~'' @ ''/tmp/''),
                        MakeDirs (dirname (os_expanduser os (path_join root_destination [])))}"
  proof (atomize (full), cases rule: download_file_steps [of os url "[]" root_destination False replace s])
    case (early e s3 evs)
    with run have "r = Inl e" "s' = s3" by simp_all
    with early show "(\<exists>e. r = Inl e) \<and> (\<exists>evs. trace s' = trace s @ evs \<and>
            set evs \<subseteq> {MakeDirs (os_expanduser os ''~'' @ ''/data/''),
                        MakeDirs (os_expanduser os ''~'' @ ''/tmp/''),
                        MakeDirs (dirname (os_expanduser os (path_join root_destination [])))})"
      by blast
  next
    case (ready download_path s3 evs)
    with run have "r = Inl (ValueError ''Cannot overwrite the root data directory'')" "s' = s3"
      by simp_all
    with ready(2,3) show "(\<exists>e. r = Inl e) \<and> (\<exists>evs. trace s' = trace s @ evs \<and>
            set evs \<subseteq> {MakeDirs (os_expanduser os ''~'' @ ''/data/''),
                        MakeDirs (os_expanduser os ''~'' @ ''/tmp/''),
                        MakeDirs (dirname (os_expanduser os (path_join root_destination [])))})"
      by blast
  qed
  show ?thesis
    unfolding run fst_conv snd_conv
    using fails only_dirs run [unfolded download_file_unfold]
    by (intro conjI allI impI) (simp_all)
qed


theorem download_file_empty_name_witness:
  "download_file test_os ''https://example.org/run1.nii'' [] ''~/data/'' False False
          (test_world \<lparr>cells = [], metadata = []\<rparr>)
     = (Inl (ValueError ''Cannot overwrite the root data directory''),
        test_world \<lparr>cells = [], metadata = []\<rparr>)"
proof -
  let ?W = "test_world \<lparr>cells = [], metadata = []\<rparr>"
  have e1: "ensure_dir test_os (os_expanduser test_os ''~'' @ ''/data/'') ?W = (Inr (), ?W)"
    by (simp add: test_defs)
  have e2: "ensure_dir test_os (os_expanduser test_os ''~'' @ ''/tmp/'') ?W = (Inr (), ?W)"
    by (simp add: test_defs)
  have c: "convert_url_to_downloadable ''https://example.org/run1.nii''
             = Inr ''https://example.org/run1.nii''"
    by (simp add: test_defs)
  have e3: "ensure_dir test_os (dirname (os_expanduser test_os (path_join ''~/data/'' []))) ?W
              = (Inr (), ?W)"
    by (simp add: test_defs)
  note t = download_file_empty_name
             [of test_os "''https://example.org/run1.nii''" "''~/data/''" False ?W]
  note all = conjunct1 [OF conjunct2 [OF conjunct2 [OF t]]]
  show ?thesis
    by (rule all [rule_format, OF conjI [OF e1 conjI [OF e2 conjI [OF c e3]]]])
qed

text \<open>
  Claim C4. The claim says that with \<open>zipfile = False\<close> and \<open>replace = False\<close> every
  call whose destination path exists fails with the conflict error naming the path.
  The check of the empty name comes first: with an empty name and the existing root
  \<^verbatim>\<open>~/data/\<close> the destination \<^verbatim>\<open>/home/user/data/\<close> exists and the error is the
  empty-name error.
\<close>

theorem download_file_existing_root_counterexample:
  "os_exists test_os (world (test_world \<lparr>cells = [], metadata = []\<rparr>))
      (os_expanduser test_os (path_join ''~/data/'' []))
   \<and> fst (download_file test_os ''https://example.org/run1.nii'' [] ''~/data/'' False False
          (test_world \<lparr>cells = [], metadata = []\<rparr>))
     = Inl (ValueError ''Cannot overwrite the root data directory'')
   \<and> fst (download_file test_os ''https://example.org/run1.nii'' [] ''~/data/'' False False
          (test_world \<lparr>cells = [], metadata = []\<rparr>))
     \<noteq> Inl (ValueError (''Path '' @ os_expanduser test_os (path_join ''~/data/'' [])
                           @ '' exists, use `replace=True` to overwrite''))"
  by (simp add: test_defs)

text \<open>
  Claim C4, amended. With \<open>zipfile = False\<close>, \<open>replace = False\<close> and a non-empty name,
  when the destination path exists (and creating directories does not remove it), the
  call never returns normally and attempts no fetch: its only actions are creations of
  the two base folders and of the parent directory of the destination path, so no file
  is written. When these three steps and the rewriting of the URL succeed, the call
  raises the conflict error that names the destination path; otherwise it raises the
  exception of the first of these steps that failed, in the state that step left.
\<close>

theorem download_file_existing_destination:
  assumes name: "name \<noteq> []"
    and ex: "os_exists os (world s) (os_expanduser os (path_join root_destination name))"
    and keeps: "makedirs_keeps os (os_expanduser os (path_join root_destination name))"
  shows
  "(\<exists>e. fst (download_file os url name root_destination False False s) = Inl e)
   \<and> (\<exists>evs. trace (snd (download_file os url name root_destination False False s))
                = trace s @ evs \<and> (\<forall>u d. Fetch u d \<notin> set evs) \<and>
            set evs \<subseteq> {MakeDirs (os_expanduser os ''~'' @ ''/data/''),
                        MakeDirs (os_expanduser os ''~'' @ ''/tmp/''),
                        MakeDirs (dirname (os_expanduser os (path_join root_destination name)))})
   \<and> (\<forall>s1 s2 s3 download_path.
          ensure_dir os (os_expanduser os ''~'' @ ''/data/'') s = (Inr (), s1) \<and>
          ensure_dir os (os_expanduser os ''~'' @ ''/tmp/'') s1 = (Inr (), s2) \<and>
          convert_url_to_downloadable url = Inr download_path \<and>
          ensure_dir os (dirname (os_expanduser os (path_join root_destination name))) s2
            = (Inr (), s3) \<longrightarrow>
          download_file os url name root_destination False False s
            = (Inl (ValueError (''Path '' @ os_expanduser os (path_join root_destination name)
                                 @ '' exists, use `replace=True` to overwrite'')), s3))
   \<and> (\<forall>e s1.
          ensure_dir os (os_expanduser os ''~'' @ ''/data/'') s = (Inl e, s1) \<longrightarrow>
          download_file os url name root_destination False False s = (Inl e, s1))
   \<and> (\<forall>e s1 s2.
          ensure_dir os (os_expanduser os ''~'' @ ''/data/'') s = (Inr (), s1) \<and>
          ensure_dir os (os_expanduser os ''~'' @ ''/tmp/'') s1 = (Inl e, s2) \<longrightarrow>
          download_file os url name root_destination False False s = (Inl e, s2))
   \<and> (\<forall>e s1 s2.
          ensure_dir os (os_expanduser os ''~'' @ ''/data/'') s = (Inr (), s1) \<and>
          ensure_dir os (os_expanduser os ''~'' @ ''/tmp/'') s1 = (Inr (), s2) \<and>
          convert_url_to_downloadable url = Inl e \<longrightarrow>
          download_file os url name root_destination False False s = (Inl e, s2))
   \<and> (\<forall>e s1 s2 s3 download_path.
          ensure_dir os (os_expanduser os ''~'' @ ''/data/'') s = (Inr (), s1) \<and>
          ensure_dir os (os_expanduser os ''~'' @ ''/tmp/'') s1 = (Inr (), s2) \<and>
          convert_url_to_downloadable url = Inr download_path \<and>
          ensure_dir os (dirname (os_expanduser os (path_join root_destination name))) s2
            = (Inl e, s3) \<longrightarrow>
          download_file os url name root_destination False False s = (Inl e, s3))"
  (is "?P1 \<and> ?P2 \<and> ?P3 \<and> ?P4 \<and> ?P5 \<and> ?P6 \<and> ?P7")
proof -
  let ?out = "os_expanduser os (path_join root_destination name)"
  let ?D = "{MakeDirs (os_expanduser os ''~'' @ ''/data/''),
             MakeDirs (os_expanduser os ''~'' @ ''/tmp/''), MakeDirs (dirname ?out)}"
  obtain r s' where run: "download_file os url name root_destination False False s = (r, s')"
    by fastforce
  have general: "(\<exists>e. r = Inl e) \<and>
      (\<exists>evs. trace s' = trace s @ evs \<and> (\<forall>u d. Fetch u d \<notin> set evs) \<and> set evs \<subseteq> ?D)"
  proof (cases rule: download_file_steps [of os url name root_destination False False s])
    case (early e s3 evs)
    with run have "r = Inl e" "s' = s3" by simp_all
    moreover have "\<forall>u d. Fetch u d \<notin> set evs" using early(3) by auto
    ultimately show ?thesis using early by blast
  next
    case (ready download_path s3 evs)
    have "os_exists os (world s3) ?out" using keeps ex by (rule ready(4))
    with run name ready(5)
    have "r = Inl (ValueError (''Path '' @ ?out @ '' exists, use `replace=True` to overwrite''))"
      "s' = s3" by simp_all
    moreover have "\<forall>u d. Fetch u d \<notin> set evs" using ready(3) by auto
    ultimately show ?thesis using ready(2,3) by blast
  qed
  have success: "download_file os url name root_destination False False s
        = (Inl (ValueError (''Path '' @ ?out @ '' exists, use `replace=True` to overwrite'')), s3)"
    if e1: "ensure_dir os (os_expanduser os ''~'' @ ''/data/'') s = (Inr (), s1)"
      and e2: "ensure_dir os (os_expanduser os ''~'' @ ''/tmp/'') s1 = (Inr (), s2)"
      and c: "convert_url_to_downloadable url = Inr download_path"
      and e3: "ensure_dir os (dirname ?out) s2 = (Inr (), s3)"
    for s1 s2 s3 download_path
  proof -
    have "os_exists os (world s3) ?out"
      using ensure_dir_keeps [OF e3 keeps ensure_dir_keeps [OF e2 keeps
              ensure_dir_keeps [OF e1 keeps ex]]] .
    then show ?thesis
      using name by (simp add: download_file_unfold e1 e2 c e3)
  qed
  have c1: ?P1 and c2: ?P2 using general by (simp_all add: run)
  have c3: ?P3 using success by blast
  have c4: ?P4 by (simp add: download_file_unfold)
  have c5: ?P5 by (simp add: download_file_unfold)
  have c6: ?P6 by (simp add: download_file_unfold)
  have c7: ?P7 by (simp add: download_file_unfold)
  show ?thesis
    by (rule conjI [OF c1 conjI [OF c2 conjI [OF c3 conjI [OF c4 conjI [OF c5 conjI [OF c6 c7]]]]]])
qed

theorem download_file_existing_destination_witness:
  "download_file test_os ''https://example.org/run1.nii'' ''run1.nii'' ''~/data/'' False False
          (test_world \<lparr>cells = [], metadata = []\<rparr>)
     = (Inl (ValueError (''Path '' @ os_expanduser test_os (path_join ''~/data/'' ''run1.nii'')
                          @ '' exists, use `replace=True` to overwrite'')),
        test_world \<lparr>cells = [], metadata = []\<rparr>)
   \<and> map_of (fs_files (world (test_world \<lparr>cells = [], metadata = []\<rparr>)))
        ''/home/user/data/run1.nii'' = Some ''old bytes''"
proof -
  let ?W = "test_world \<lparr>cells = [], metadata = []\<rparr>"
  have name: "''run1.nii'' \<noteq> []" by simp
  have ex: "os_exists test_os (world ?W) (os_expanduser test_os (path_join ''~/data/'' ''run1.nii''))"
    by (simp add: test_defs)
  have e1: "ensure_dir test_os (os_expanduser test_os ''~'' @ ''/data/'') ?W = (Inr (), ?W)"
    by (simp add: test_defs)
  have e2: "ensure_dir test_os (os_expanduser test_os ''~'' @ ''/tmp/'') ?W = (Inr (), ?W)"
    by (simp add: test_defs)
  have c: "convert_url_to_downloadable ''https://example.org/run1.nii''
             = Inr ''https://example.org/run1.nii''"
    by (simp add: test_defs)
  have e3: "ensure_dir test_os
              (dirname (os_expanduser test_os (path_join ''~/data/'' ''run1.nii''))) ?W
              = (Inr (), ?W)"
    by (simp add: test_defs)
  have bytes: "map_of (fs_files (world ?W)) ''/home/user/data/run1.nii'' = Some ''old bytes''"
    by (simp add: test_world_def)
  note t = download_file_existing_destination
             [OF name ex test_makedirs_keeps, of "''https://example.org/run1.nii''"]
  note all = conjunct1 [OF conjunct2 [OF conjunct2 [OF t]]]
  have "download_file test_os ''https://example.org/run1.nii'' ''run1.nii'' ''~/data/'' False False ?W
     = (Inl (ValueError (''Path '' @ os_expanduser test_os (path_join ''~/data/'' ''run1.nii'')
                          @ '' exists, use `replace=True` to overwrite'')), ?W)"
    by (rule all [rule_format, OF conjI [OF e1 conjI [OF e2 conjI [OF c e3]]]])
  then show ?thesis using bytes by (rule conjI)
qed

section \<open>Properties of the fMRI loader\<close>

lemma load_loop_eq:
  "load_loop lib z vmask dt files data
     = and_then (spec_file_arrays lib z vmask dt files) (\<lambda>rest. Inr (data @ rest))"
  by (induction files arbitrary: data)
     (auto simp: and_then_def spec_file_array_def Let_def split: sum.splits option.splits)

lemma load_fmri_data_eq:
  "load_fmri_data lib files z vmask dt = and_then (spec_file_arrays lib z vmask dt files) vstack"
  by (simp add: load_fmri_data_def load_loop_eq and_then_def split: sum.splits)

text \<open>
  Claim C8. For every sequence of files the loader stacks the arrays of the files, each
  prepared on its own, in input order. For two files that load, with \<open>T1\<close> and \<open>T2\<close>
  time points after preparation and equal shapes otherwise, the result has the first
  file's time points followed by the second file's, hence \<open>T1 + T2\<close> of them. With
  \<open>do_zscore = True\<close> the array of each file is standardized by itself, after the mask
  has been applied, and before the arrays are stacked.
\<close>

theorem load_fmri_data_concatenates:
  assumes "nii_load lib f1 dtype = Inr a1" and "nii_load lib f2 dtype = Inr a2"
    and "(case vmask of None \<Rightarrow> Inr a1 | Some m \<Rightarrow> mask_select lib a1 m) = Inr c1"
    and "(case vmask of None \<Rightarrow> Inr a2 | Some m \<Rightarrow> mask_select lib a2 m) = Inr c2"
    and "b1 = (if do_zscore then zscore lib c1 else c1)"
    and "b2 = (if do_zscore then zscore lib c2 else c2)"
    and "frame_shape b2 = frame_shape b1"
  shows "load_fmri_data lib [f1, f2] do_zscore vmask dtype
           = Inr \<lparr>frames = frames b1 @ frames b2, frame_shape = frame_shape b1\<rparr>
         \<and> load_fmri_data lib files do_zscore vmask dtype
           = and_then (spec_file_arrays lib do_zscore vmask dtype files) vstack"
proof -
  have 1: "spec_file_array lib do_zscore vmask dtype f1 = Inr b1"
    using assms(1,3,5) by (simp add: spec_file_array_def and_then_def)
  have 2: "spec_file_array lib do_zscore vmask dtype f2 = Inr b2"
    using assms(2,4,6) by (simp add: spec_file_array_def and_then_def)
  have "load_fmri_data lib [f1, f2] do_zscore vmask dtype = vstack [b1, b2]"
    by (simp add: load_fmri_data_eq 1 2 and_then_def)
  also have "\<dots> = Inr \<lparr>frames = frames b1 @ frames b2, frame_shape = frame_shape b1\<rparr>"
    using assms(7) by (simp add: vstack_def)
  finally show ?thesis by (simp add: load_fmri_data_eq)
qed

theorem load_fmri_data_concatenates_witness:
  "load_fmri_data test_nilib [''run1.nii'', ''run2.nii''] True (Some [True, False]) ()
     = Inr \<lparr>frames = [[- 1], [1], [- 1], [1], [- 1], [1]], frame_shape = [1]\<rparr>"
proof -
  let ?a1 = "\<lparr>frames = [[1, 2], [3, 4 :: real]], frame_shape = [2]\<rparr>"
  let ?a2 = "\<lparr>frames = [[10, 0], [14, 8], [10, 0], [14, 8 :: real]], frame_shape = [2]\<rparr>"
  let ?c1 = "\<lparr>frames = [[1], [3 :: real]], frame_shape = [1]\<rparr>"
  let ?c2 = "\<lparr>frames = [[10], [14], [10], [14 :: real]], frame_shape = [1]\<rparr>"
  let ?b1 = "\<lparr>frames = [[- 1], [1 :: real]], frame_shape = [1]\<rparr>"
  let ?b2 = "\<lparr>frames = [[- 1], [1], [- 1], [1 :: real]], frame_shape = [1]\<rparr>"
  have l1: "nii_load test_nilib ''run1.nii'' () = Inr ?a1"
    by (simp add: test_nilib_def test_nii_load_def)
  have l2: "nii_load test_nilib ''run2.nii'' () = Inr ?a2"
    by (simp add: test_nilib_def test_nii_load_def)
  have m1: "(case Some [True, False] of None \<Rightarrow> Inr ?a1
             | Some m \<Rightarrow> mask_select test_nilib ?a1 m) = Inr ?c1"
    by (simp add: test_nilib_def test_mask_select_def)
  have m2: "(case Some [True, False] of None \<Rightarrow> Inr ?a2
             | Some m \<Rightarrow> mask_select test_nilib ?a2 m) = Inr ?c2"
    by (simp add: test_nilib_def test_mask_select_def)
  have z1: "?b1 = (if True then zscore test_nilib ?c1 else ?c1)"
    by (simp add: test_nilib_def test_zscore_def col_mean_def col_std_def column_def)
  have z2: "?b2 = (if True then zscore test_nilib ?c2 else ?c2)"
    by (simp add: test_nilib_def test_zscore_def col_mean_def col_std_def column_def)
  have sh: "frame_shape ?b2 = frame_shape ?b1" by simp
  from conjunct1 [OF load_fmri_data_concatenates [OF l1 l2 m1 m2 z1 z2 sh]]
  show ?thesis by simp
qed

end
